theory Spec2Isabelle
  imports Main
begin

section \<open>Text primitives of the Python runtime\<close>

text \<open>
  The bot (telegram\_bot.py) works on Python strings.  A string is modelled as a list of
  characters, each character a code point below 256.  The character classes are those of
  the runtime on that range: \<^verbatim>\<open>\s\<close> and \<^verbatim>\<open>\d\<close> of the module re,
  the blanks that \<^verbatim>\<open>int()\<close> strips, and \<^verbatim>\<open>str.lower\<close>.
\<close>

definition is_space :: "char \<Rightarrow> bool" where
  \<comment> \<open>\<^verbatim>\<open>\s\<close> of re on a str pattern: TAB..CR, FS..US, space, NEL, NBSP\<close>
  "is_space c = (let n = (of_char c :: nat) in
     (9 \<le> n \<and> n \<le> 13) \<or> (28 \<le> n \<and> n \<le> 32) \<or> n = 133 \<or> n = 160)"

definition is_digit :: "char \<Rightarrow> bool" where
  \<comment> \<open>\<^verbatim>\<open>\d\<close> of re: the decimal digits\<close>
  "is_digit c = (let n = (of_char c :: nat) in 48 \<le> n \<and> n \<le> 57)"

definition digit_val :: "char \<Rightarrow> nat" where
  "digit_val c = of_char c - 48"

definition digit_char :: "nat \<Rightarrow> char" where
  "digit_char n = char_of (48 + n)"

definition is_int_space :: "char \<Rightarrow> bool" where
  \<comment> \<open>the blanks \<^verbatim>\<open>int()\<close> skips around a literal: TAB..CR, space, NEL, NBSP\<close>
  "is_int_space c = (let n = (of_char c :: nat) in
     (9 \<le> n \<and> n \<le> 13) \<or> n = 32 \<or> n = 133 \<or> n = 160)"

definition lower_char :: "char \<Rightarrow> char" where
  \<comment> \<open>\<^verbatim>\<open>str.lower\<close> on one code point below 256: A..Z and the Latin-1 capitals\<close>
  "lower_char c = (let n = (of_char c :: nat) in
     if (65 \<le> n \<and> n \<le> 90) \<or> (192 \<le> n \<and> n \<le> 222 \<and> n \<noteq> 215)
     then char_of (n + 32) else c)"

definition lower :: "string \<Rightarrow> string" where
  "lower s = map lower_char s"

subsection \<open>str() of an integer and the format 02d\<close>

fun str_nat :: "nat \<Rightarrow> string" where
  "str_nat n = (if n < 10 then [digit_char n] else str_nat (n div 10) @ [digit_char (n mod 10)])"

declare str_nat.simps [simp del]

definition str :: "int \<Rightarrow> string" where
  "str i = (if i < 0 then CHR ''-'' # str_nat (nat (- i)) else str_nat (nat i))"

definition fmt_02d :: "int \<Rightarrow> string" where
  \<comment> \<open>\<^verbatim>\<open>f"{i:02d}"\<close>: zero-padded to two characters, the sign counted\<close>
  "fmt_02d i = (if 0 \<le> i \<and> i < 10 then CHR ''0'' # str i else str i)"

subsection \<open>int() of a string\<close>

datatype py_error = ValueError | OverflowError | AttributeError

text \<open>
  \<^verbatim>\<open>int(s)\<close> in base 10: blanks stripped on both sides, an optional sign, then
  digits, where a single underscore may stand between two digits.  Anything else raises
  ValueError.  (The runtime's limit of 4300 digits is beyond the 4096 characters of a
  Telegram message and is left out.)
\<close>

fun digits_acc :: "nat \<Rightarrow> string \<Rightarrow> nat option" where
  "digits_acc n [] = Some n"
| "digits_acc n [c] = (if is_digit c then Some (10 * n + digit_val c) else None)"
| "digits_acc n (c # d # cs) =
     (if is_digit c then digits_acc (10 * n + digit_val c) (d # cs)
      else if c = CHR ''_'' \<and> is_digit d then digits_acc (10 * n + digit_val d) cs
      else None)"

definition digits_value :: "string \<Rightarrow> nat option" where
  "digits_value s = (case s of [] \<Rightarrow> None
     | c # cs \<Rightarrow> if is_digit c then digits_acc (digit_val c) cs else None)"

definition strip_blanks :: "string \<Rightarrow> string" where
  "strip_blanks s = rev (dropWhile is_int_space (rev (dropWhile is_int_space s)))"

definition py_int :: "string \<Rightarrow> py_error + int" where
  "py_int s = (case strip_blanks s of
       [] \<Rightarrow> Inl ValueError
     | c # cs \<Rightarrow>
         if c = CHR ''-'' then
           (case digits_value cs of None \<Rightarrow> Inl ValueError | Some n \<Rightarrow> Inr (- int n))
         else if c = CHR ''+'' then
           (case digits_value cs of None \<Rightarrow> Inl ValueError | Some n \<Rightarrow> Inr (int n))
         else
           (case digits_value (c # cs) of None \<Rightarrow> Inl ValueError | Some n \<Rightarrow> Inr (int n)))"

subsection \<open>str.split(':')\<close>

fun split_colon :: "string \<Rightarrow> string list" where
  "split_colon [] = [[]]"
| "split_colon (c # cs) =
     (if c = CHR '':'' then [] # split_colon cs
      else (case split_colon cs of f # fs \<Rightarrow> (c # f) # fs | [] \<Rightarrow> [[c]]))"

subsection \<open>The two placeholder patterns\<close>

text \<open>
  The source uses two regular expressions, \<^verbatim>\<open>{increment,\s*(\d+)}\<close> and
  \<^verbatim>\<open>{decrement,\s*(\d+)}\<close> (the same without the group in re.sub).  A match at a
  position is the literal head, any run of blanks, a non-empty run of digits and the
  closing brace.  Blanks, digits and the brace are disjoint classes, so the greedy runs
  are the only way to match and backtracking finds nothing else.
\<close>

datatype kind = Increment | Decrement

fun head :: "kind \<Rightarrow> string" where
  "head Increment = ''{increment,''"
| "head Decrement = ''{decrement,''"

fun literal :: "string \<Rightarrow> string \<Rightarrow> string option" where
  "literal [] s = Some s"
| "literal (p # ps) [] = None"
| "literal (p # ps) (c # cs) = (if p = c then literal ps cs else None)"

definition match_at :: "kind \<Rightarrow> string \<Rightarrow> (string \<times> string) option" where
  \<comment> \<open>a match at the start of the text: the group \<^verbatim>\<open>(\d+)\<close> and the text after the match\<close>
  "match_at k s = (case literal (head k) s of
       None \<Rightarrow> None
     | Some r \<Rightarrow>
         (let r1 = dropWhile is_space r;
              ds = takeWhile is_digit r1
          in if ds = [] then None
             else (case dropWhile is_digit r1 of
                     [] \<Rightarrow> None
                   | c # rest \<Rightarrow> if c = CHR ''}'' then Some (ds, rest) else None)))"

fun re_search :: "kind \<Rightarrow> string \<Rightarrow> string option" where
  \<comment> \<open>\<^verbatim>\<open>re.search(pattern, s)\<close>: group 1 of the leftmost match, None when there is none\<close>
  "re_search k [] = None"
| "re_search k (c # cs) = (case match_at k (c # cs) of
       Some (ds, rest) \<Rightarrow> Some ds
     | None \<Rightarrow> re_search k cs)"

lemma literal_iff: "literal p s = Some r \<longleftrightarrow> s = p @ r"
  by (induction p s rule: literal.induct) auto

lemma match_at_shorter: "match_at k s = Some (ds, rest) \<Longrightarrow> length rest < length s"
proof -
  assume m: "match_at k s = Some (ds, rest)"
  then obtain r where r: "literal (head k) s = Some r"
    by (auto simp: match_at_def split: option.splits)
  then have s: "s = head k @ r" by (simp add: literal_iff)
  from m r have "dropWhile is_digit (dropWhile is_space r) = CHR ''}'' # rest"
    by (auto simp: match_at_def Let_def split: if_splits list.splits)
  then have "length (CHR ''}'' # rest) \<le> length r"
    by (metis length_dropWhile_le order_trans)
  with s show ?thesis by simp
qed

function re_sub :: "kind \<Rightarrow> string \<Rightarrow> string \<Rightarrow> string" where
  \<comment> \<open>\<^verbatim>\<open>re.sub(pattern, repl, s)\<close>: every match, left to right and not overlapping,
      replaced by repl (repl is str() of an integer and holds no escape)\<close>
  "re_sub k repl [] = []"
| "re_sub k repl (c # cs) = (case match_at k (c # cs) of
       Some (ds, rest) \<Rightarrow> repl @ re_sub k repl rest
     | None \<Rightarrow> c # re_sub k repl cs)"
  by pat_completeness auto
termination
  by (relation "measure (\<lambda>(k, repl, s). length s)") (auto dest: match_at_shorter)

section \<open>The bot's state and its collaborators\<close>

text \<open>
  The module keeps five globals.  Two collaborators of the python-telegram-bot library
  are part of the state as well: the job queue (the jobs registered and not removed) and
  the messages handed to the gateway, each with the chat it goes to.  A call to the
  gateway is recorded and taken to return.
\<close>

record time_of_day =
  hour :: int
  minute :: int

record job =
  job_id :: nat
  job_time :: time_of_day
  job_chat_id :: int

record state =
  scheduled_job :: "job option"
  message_template :: string
  message_time :: "time_of_day option"
  increment_counter :: "int option"
  decrement_counter :: "int option"
  job_queue :: "job list"
  next_job_id :: nat
  sent :: "(int \<times> string) list"

definition initial :: state where
  \<comment> \<open>the globals as the module sets them at import, nothing registered, nothing sent\<close>
  "initial = \<lparr>scheduled_job = None, message_template = [], message_time = None,
     increment_counter = None, decrement_counter = None,
     job_queue = [], next_job_id = 0, sent = []\<rparr>"

text \<open>
  An update of the gateway.  update.message is None for an update of another kind, such as
  the edit of a message, which comes as update.edited\_message; the handlers are registered
  without a filter on the kind and receive both.  A message has its sender, who may be
  missing, and the sender a username, which may be missing too.  chat\_id stands for
  update.effective\_chat.id, the chat of either kind of message.
\<close>

record User =
  username :: "string option"

record Message =
  from_user :: "User option"
  message_text :: string

record Update =
  message :: "Message option"
  edited_message :: "Message option"
  chat_id :: int

definition msg_text :: "Update \<Rightarrow> string" where
  \<comment> \<open>update.message.text; the handlers read it after check\_user has returned, when the
      message is there\<close>
  "msg_text u = (case message u of Some m \<Rightarrow> message_text m | None \<Rightarrow> [])"

record Context =
  ctx_job :: "job option"
  ctx_chat_id :: int

datatype outcome = Returned "int option" | Raised py_error

definition ALLOWED_USERNAME :: string where
  "ALLOWED_USERNAME = ''jaredtanzd''"

definition SET_MESSAGE :: int where "SET_MESSAGE = 0"
definition SET_TIME :: int where "SET_TIME = 1"
definition CONFIRM :: int where "CONFIRM = 2"
definition END :: int where
  \<comment> \<open>ConversationHandler.END\<close>
  "END = - 1"

definition reply_text :: "Update \<Rightarrow> string \<Rightarrow> state \<Rightarrow> state" where
  "reply_text u txt s = s\<lparr>sent := sent s @ [(chat_id u, txt)]\<rparr>"

definition send_message :: "int \<Rightarrow> string \<Rightarrow> state \<Rightarrow> state" where
  "send_message chat txt s = s\<lparr>sent := sent s @ [(chat, txt)]\<rparr>"

definition schedule_removal :: "job \<Rightarrow> state \<Rightarrow> state" where
  "schedule_removal j s = s\<lparr>job_queue := filter (\<lambda>x. job_id x \<noteq> job_id j) (job_queue s)\<rparr>"

definition run_daily :: "time_of_day option \<Rightarrow> int \<Rightarrow> state \<Rightarrow> py_error + (job \<times> state)" where
  \<comment> \<open>\<^verbatim>\<open>job_queue.run_daily(send_scheduled_message, time=t, chat_id=c)\<close>: reading the hour
      of a time that is None raises AttributeError\<close>
  "run_daily t c s = (case t of
       None \<Rightarrow> Inl AttributeError
     | Some tm \<Rightarrow>
         (let j = \<lparr>job_id = next_job_id s, job_time = tm, job_chat_id = c\<rparr>
          in Inr (j, s\<lparr>job_queue := job_queue s @ [j], next_job_id := Suc (next_job_id s)\<rparr>)))"

definition time :: "int \<Rightarrow> int \<Rightarrow> py_error + time_of_day" where
  \<comment> \<open>\<^verbatim>\<open>datetime.time(hour=h, minute=m, tzinfo=...)\<close>: the arguments are converted to C int
      first (OverflowError when one does not fit), then range-checked (ValueError)\<close>
  "time h m =
     (if h < - 2147483648 \<or> 2147483647 < h \<or> m < - 2147483648 \<or> 2147483647 < m
      then Inl OverflowError
      else if h < 0 \<or> 23 < h then Inl ValueError
      else if m < 0 \<or> 59 < m then Inl ValueError
      else Inr \<lparr>hour = h, minute = m\<rparr>)"

section \<open>The functions of telegram\_bot.py\<close>

definition parse_custom_message :: "string \<Rightarrow> state \<Rightarrow> string" where
  "parse_custom_message template s =
     (let message = template;
          message = (case increment_counter s of
                       Some n \<Rightarrow> re_sub Increment (str n) message | None \<Rightarrow> message);
          message = (case decrement_counter s of
                       Some n \<Rightarrow> re_sub Decrement (str n) message | None \<Rightarrow> message)
      in message)"

definition update_counters :: "state \<Rightarrow> state" where
  "update_counters s =
     (let s = (case increment_counter s of
                 Some n \<Rightarrow> s\<lparr>increment_counter := Some (n + 1)\<rparr> | None \<Rightarrow> s);
          s = (case decrement_counter s of
                 Some n \<Rightarrow> s\<lparr>decrement_counter := Some (n - 1)\<rparr> | None \<Rightarrow> s)
      in s)"

definition check_user :: "Update \<Rightarrow> py_error + bool" where
  \<comment> \<open>\<^verbatim>\<open>update.message.from_user.username == ALLOWED_USERNAME\<close>: reading an attribute
      of None raises AttributeError\<close>
  "check_user u = (case message u of
       None \<Rightarrow> Inl AttributeError
     | Some m \<Rightarrow>
         (case from_user m of
            None \<Rightarrow> Inl AttributeError
          | Some sender \<Rightarrow> Inr (username sender = Some ALLOWED_USERNAME)))"

definition not_authorized :: string where
  "not_authorized = ''You are not authorized to use this bot.''"

definition create_scheduled_message :: "Update \<Rightarrow> state \<Rightarrow> outcome \<times> state" where
  "create_scheduled_message u s =
     (case check_user u of
        Inl e \<Rightarrow> (Raised e, s)
      | Inr allowed \<Rightarrow>
        if \<not> allowed then (Returned (Some END), reply_text u not_authorized s)
      else (Returned (Some SET_MESSAGE),
            reply_text u (''Let's create a scheduled message. First, please enter ''
                          @ ''the custom message you want to send daily.'') s))"

definition seed_counter :: "string option \<Rightarrow> int option \<Rightarrow> py_error + int option" where
  \<comment> \<open>\<^verbatim>\<open>if match: counter = int(match.group(1))\<close>; without a match the counter stays\<close>
  "seed_counter m counter = (case m of
       None \<Rightarrow> Inr counter
     | Some g \<Rightarrow> (case py_int g of Inl e \<Rightarrow> Inl e | Inr n \<Rightarrow> Inr (Some n)))"

definition set_message :: "Update \<Rightarrow> state \<Rightarrow> outcome \<times> state" where
  "set_message u s =
     (case check_user u of
        Inl e \<Rightarrow> (Raised e, s)
      | Inr allowed \<Rightarrow>
        if \<not> allowed then (Returned (Some END), reply_text u not_authorized s)
      else
        (let s1 = s\<lparr>message_template := msg_text u\<rparr>;
             increment_match = re_search Increment (message_template s1);
             decrement_match = re_search Decrement (message_template s1)
         in case seed_counter increment_match (increment_counter s1) of
              Inl e \<Rightarrow> (Raised e, s1)
            | Inr i \<Rightarrow>
                (let s2 = s1\<lparr>increment_counter := i\<rparr>
                 in case seed_counter decrement_match (decrement_counter s2) of
                      Inl e \<Rightarrow> (Raised e, s2)
                    | Inr d \<Rightarrow>
                        (Returned (Some SET_TIME),
                         reply_text u (''Message set. Now, please specify the time for the ''
                           @ ''daily message (in 24-hour format, e.g., 14:30 for 2:30 PM).'')
                           (s2\<lparr>decrement_counter := d\<rparr>)))))"

definition parse_time :: "string \<Rightarrow> py_error + (int \<times> int \<times> time_of_day)" where
  \<comment> \<open>the first two statements of the try block of set\_time: the text split at the
      colons must unpack into exactly two fields, each read by int(); then the time built\<close>
  "parse_time txt = (case split_colon txt of
       [a, b] \<Rightarrow>
         (case py_int a of
            Inl e \<Rightarrow> Inl e
          | Inr h \<Rightarrow>
              (case py_int b of
                 Inl e \<Rightarrow> Inl e
               | Inr m \<Rightarrow> (case time h m of Inl e \<Rightarrow> Inl e | Inr t \<Rightarrow> Inr (h, m, t))))
     | _ \<Rightarrow> Inl ValueError)"

definition preview_text :: "int \<Rightarrow> int \<Rightarrow> string \<Rightarrow> string" where
  "preview_text h m preview_message =
     ''Your message will be sent daily at '' @ fmt_02d h @ '':'' @ fmt_02d m
     @ '' Singapore time.'' @ [CHR 0x0A, CHR 0x0A] @ ''Here's a preview of your message:''
     @ [CHR 0x0A, CHR 0x0A] @ preview_message @ [CHR 0x0A, CHR 0x0A]
     @ ''Is this correct? (Yes/No)''"

definition set_time :: "Update \<Rightarrow> state \<Rightarrow> outcome \<times> state" where
  \<comment> \<open>the handler catches ValueError only; any other exception leaves it\<close>
  "set_time u s =
     (case check_user u of
        Inl e \<Rightarrow> (Raised e, s)
      | Inr allowed \<Rightarrow>
        if \<not> allowed then (Returned (Some END), reply_text u not_authorized s)
      else (case parse_time (msg_text u) of
              Inr (h, m, t) \<Rightarrow>
                (let s1 = s\<lparr>message_time := Some t\<rparr>;
                     preview_message = parse_custom_message (message_template s1) s1
                 in (Returned (Some CONFIRM), reply_text u (preview_text h m preview_message) s1))
            | Inl e \<Rightarrow>
                if e = ValueError
                then (Returned (Some SET_TIME),
                      reply_text u ''Invalid time format. Please use HH:MM (24-hour format).'' s)
                else (Raised e, s)))"

definition confirm :: "Update \<Rightarrow> state \<Rightarrow> outcome \<times> state" where
  "confirm u s =
     (case check_user u of
        Inl e \<Rightarrow> (Raised e, s)
      | Inr allowed \<Rightarrow>
        if \<not> allowed then (Returned (Some END), reply_text u not_authorized s)
      else if lower (msg_text u) = ''yes'' then
        (let s1 = (case scheduled_job s of Some j \<Rightarrow> schedule_removal j s | None \<Rightarrow> s)
         in case run_daily (message_time s1) (chat_id u) s1 of
              Inl e \<Rightarrow> (Raised e, s1)
            | Inr (j, s2) \<Rightarrow>
                (Returned (Some END),
                 reply_text u ''Scheduled message has been set up successfully!''
                   (s2\<lparr>scheduled_job := Some j\<rparr>)))
      else if lower (msg_text u) = ''no'' then
        (Returned (Some SET_MESSAGE),
         reply_text u ''Let's start over. Please enter your custom message.'' s)
      else
        (Returned (Some CONFIRM), reply_text u ''Please respond with 'Yes' or 'No'.'' s))"

definition send_scheduled_message :: "Context \<Rightarrow> state \<Rightarrow> state" where
  "send_scheduled_message context s =
     (let s1 = update_counters s;
          message_to_send = parse_custom_message (message_template s1) s1;
          chat = (case ctx_job context of Some j \<Rightarrow> job_chat_id j | None \<Rightarrow> ctx_chat_id context)
      in send_message chat message_to_send s1)"

definition stop_scheduled_message :: "Update \<Rightarrow> state \<Rightarrow> outcome \<times> state" where
  "stop_scheduled_message u s =
     (case check_user u of
        Inl e \<Rightarrow> (Raised e, s)
      | Inr allowed \<Rightarrow>
        if \<not> allowed then (Returned None, reply_text u not_authorized s)
      else (case scheduled_job s of
              Some j \<Rightarrow>
                (Returned None,
                 reply_text u ''Scheduled message has been stopped.''
                   ((schedule_removal j s)\<lparr>scheduled_job := None\<rparr>))
            | None \<Rightarrow>
                (Returned None, reply_text u ''There is no active scheduled message.'' s)))"

definition cancel :: "Update \<Rightarrow> state \<Rightarrow> outcome \<times> state" where
  "cancel u s =
     (case check_user u of
        Inl e \<Rightarrow> (Raised e, s)
      | Inr allowed \<Rightarrow>
        if \<not> allowed then (Returned (Some END), reply_text u not_authorized s)
      else (Returned (Some END), reply_text u ''Operation cancelled.'' s))"

definition update_context :: "Update \<Rightarrow> Context" where
  \<comment> \<open>the context the library hands to a handler of an update: no job, the update's chat\<close>
  "update_context u = \<lparr>ctx_job = None, ctx_chat_id = chat_id u\<rparr>"

definition job_context :: "job \<Rightarrow> Context" where
  \<comment> \<open>the context of the daily callback of job j\<close>
  "job_context j = \<lparr>ctx_job = Some j, ctx_chat_id = job_chat_id j\<rparr>"

definition trigger_job :: "Update \<Rightarrow> state \<Rightarrow> outcome \<times> state" where
  "trigger_job u s =
     (case check_user u of
        Inl e \<Rightarrow> (Raised e, s)
      | Inr allowed \<Rightarrow>
        if \<not> allowed then (Returned None, reply_text u not_authorized s)
      else (Returned None,
            reply_text u ''Scheduled job triggered manually.''
              (send_scheduled_message (update_context u) s)))"

section \<open>Notions used in the properties\<close>

subsection \<open>Updates and states of the examples\<close>

definition owner :: "int \<Rightarrow> string \<Rightarrow> Update" where
  \<comment> \<open>an update of the allowed user: text t, sent in chat c\<close>
  "owner c t = \<lparr>message = Some \<lparr>from_user = Some \<lparr>username = Some ALLOWED_USERNAME\<rparr>,
                                  message_text = t\<rparr>,
                 edited_message = None, chat_id = c\<rparr>"

definition mallory :: Update where
  \<comment> \<open>an update from somebody else\<close>
  "mallory = \<lparr>message = Some \<lparr>from_user = Some \<lparr>username = Some ''mallory''\<rparr>,
                                message_text = ''/stop_scheduled_message''\<rparr>,
               edited_message = None, chat_id = 7\<rparr>"

definition mallory_edit :: Update where
  \<comment> \<open>somebody else edits a message: the update has no message, only an edited one\<close>
  "mallory_edit = \<lparr>message = None,
                    edited_message = Some \<lparr>from_user = Some \<lparr>username = Some ''mallory''\<rparr>,
                                           message_text = ''/cancel''\<rparr>,
                    chat_id = 7\<rparr>"

definition set_up :: "int \<Rightarrow> state" where
  \<comment> \<open>a first conversation in chat c, from the entry command to the confirmation\<close>
  "set_up c = snd (confirm (owner c ''yes'') (snd (set_time (owner c ''09:00'')
     (snd (set_message (owner c ''Day {increment, 1}'')
       (snd (create_scheduled_message (owner c ''/create_scheduled_message'') initial)))))))"

definition both_active :: state where
  \<comment> \<open>a state with both counters active\<close>
  "both_active = initial\<lparr>increment_counter := Some 5, decrement_counter := Some 2\<rparr>"

subsection \<open>Occurrences of a placeholder\<close>

text \<open>
  The notions the properties are stated with: a run of blanks, a non-empty run of digits,
  the text of one placeholder, and the number a run of digits denotes.  The lemma
  match\_at\_iff ties them to the matcher: a match at the start of a text is exactly a
  placeholder at its start.
\<close>

definition blanks :: "string \<Rightarrow> bool" where
  "blanks ws = list_all is_space ws"

definition digits :: "string \<Rightarrow> bool" where
  "digits ds = (ds \<noteq> [] \<and> list_all is_digit ds)"

definition placeholder :: "kind \<Rightarrow> string \<Rightarrow> string \<Rightarrow> string" where
  "placeholder k ws ds = head k @ ws @ ds @ ''}''"

definition decimal :: "string \<Rightarrow> nat" where
  "decimal ds = foldl (\<lambda>n c. 10 * n + digit_val c) 0 ds"

subsection \<open>Reachable states\<close>

text \<open>
  The states the bot can be in: the handlers run one at a time, each with any update, and
  a job of the queue may fire between any two of them.
\<close>

inductive reachable :: "state \<Rightarrow> bool" where
  init: "reachable initial"
| create: "reachable s \<Longrightarrow> reachable (snd (create_scheduled_message u s))"
| message: "reachable s \<Longrightarrow> reachable (snd (set_message u s))"
| time: "reachable s \<Longrightarrow> reachable (snd (set_time u s))"
| confirm: "reachable s \<Longrightarrow> reachable (snd (confirm u s))"
| cancel: "reachable s \<Longrightarrow> reachable (snd (cancel u s))"
| stop: "reachable s \<Longrightarrow> reachable (snd (stop_scheduled_message u s))"
| trigger: "reachable s \<Longrightarrow> reachable (snd (trigger_job u s))"
| fire: "reachable s \<Longrightarrow> j \<in> set (job_queue s) \<Longrightarrow>
         reachable (send_scheduled_message (job_context j) s)"

definition job_inv :: "state \<Rightarrow> bool" where
  \<comment> \<open>the queue holds the job of the handle and no other; ids are fresh; a job implies a time\<close>
  "job_inv s \<longleftrightarrow>
     job_queue s = (case scheduled_job s of None \<Rightarrow> [] | Some j \<Rightarrow> [j])
     \<and> (\<forall>j \<in> set (job_queue s). job_id j < next_job_id s)
     \<and> (scheduled_job s \<noteq> None \<longrightarrow> message_time s \<noteq> None)"

section \<open>Properties\<close>

lemmas handler_defs = create_scheduled_message_def set_message_def set_time_def confirm_def
  cancel_def stop_scheduled_message_def trigger_job_def

subsection \<open>Unauthorized senders\<close>

text \<open>
  C4, as stated: for a sender other than the allowed one, every one of the seven entry
  points leaves the state alone, replies with the rejection and returns the terminal
  state of the conversation.  The last part fails for the two commands outside the
  conversation: stop\_scheduled\_message and trigger\_job return nothing (None), not
  ConversationHandler.END.  The reply fails for an update without a message, such as the
  edit of a message: check\_user raises AttributeError before anything is sent.
\<close>

theorem unauthorized_stop_not_END:
  "check_user mallory = Inr False
   \<and> fst (stop_scheduled_message mallory initial) = Returned None
   \<and> fst (trigger_job mallory initial) = Returned None
   \<and> Returned None \<noteq> Returned (Some END)
   \<and> message mallory_edit = None
   \<and> cancel mallory_edit initial = (Raised AttributeError, initial)
   \<and> sent initial = []"
  by (simp add: mallory_def mallory_edit_def check_user_def ALLOWED_USERNAME_def
      stop_scheduled_message_def trigger_job_def cancel_def reply_text_def initial_def)

text \<open>
  C4, amended: for an update that does not pass the check of the user, every entry point
  leaves counters, template, time, job and queue as they were.  When the update carries a
  message whose sender is not the allowed user, the entry point adds the rejection for
  that chat to the gateway's record and nothing else; the five handlers of the
  conversation then return ConversationHandler.END, and stop\_scheduled\_message and
  trigger\_job return None.
\<close>

theorem unauthorized_rejected:
  "(check_user u \<noteq> Inr True \<longrightarrow>
      (\<forall>h \<in> {create_scheduled_message, set_message, set_time, confirm, cancel,
              stop_scheduled_message, trigger_job}.
         (snd (h u s))\<lparr>sent := sent s\<rparr> = s))
   \<and> (check_user u = Inr False \<longrightarrow>
      (let rejected = s\<lparr>sent := sent s @ [(chat_id u, not_authorized)]\<rparr> in
            create_scheduled_message u s = (Returned (Some END), rejected)
          \<and> set_message u s = (Returned (Some END), rejected)
          \<and> set_time u s = (Returned (Some END), rejected)
          \<and> confirm u s = (Returned (Some END), rejected)
          \<and> cancel u s = (Returned (Some END), rejected)
          \<and> stop_scheduled_message u s = (Returned None, rejected)
          \<and> trigger_job u s = (Returned None, rejected)))"
proof -
  have frame: "(snd (h u s))\<lparr>sent := sent s\<rparr> = s"
    if "check_user u \<noteq> Inr True"
       "h \<in> {create_scheduled_message, set_message, set_time, confirm, cancel,
              stop_scheduled_message, trigger_job}" for h
  proof (cases "check_user u")
    case (Inl e)
    with that(2) show ?thesis by (auto simp: handler_defs)
  next
    case (Inr b)
    with that(1) have "check_user u = Inr False" by simp
    with that(2) show ?thesis by (auto simp: handler_defs reply_text_def)
  qed
  have reject: "check_user u = Inr False \<longrightarrow>
      (let rejected = s\<lparr>sent := sent s @ [(chat_id u, not_authorized)]\<rparr> in
            create_scheduled_message u s = (Returned (Some END), rejected)
          \<and> set_message u s = (Returned (Some END), rejected)
          \<and> set_time u s = (Returned (Some END), rejected)
          \<and> confirm u s = (Returned (Some END), rejected)
          \<and> cancel u s = (Returned (Some END), rejected)
          \<and> stop_scheduled_message u s = (Returned None, rejected)
          \<and> trigger_job u s = (Returned None, rejected))"
    by (simp add: handler_defs reply_text_def Let_def)
  from frame reject show ?thesis by blast
qed

theorem unauthorized_rejected_witness:
  "check_user mallory = Inr False
   \<and> set_message mallory initial = (Returned (Some END), initial\<lparr>sent := [(7, not_authorized)]\<rparr>)
   \<and> stop_scheduled_message mallory initial
       = (Returned None, initial\<lparr>sent := [(7, not_authorized)]\<rparr>)
   \<and> check_user mallory_edit = Inl AttributeError
   \<and> (snd (confirm mallory_edit (set_up 42)))\<lparr>sent := sent (set_up 42)\<rparr> = set_up 42"
proof -
  have h: "check_user mallory = Inr False"
    by (simp add: mallory_def check_user_def ALLOWED_USERNAME_def)
  have e: "check_user mallory_edit = Inl AttributeError"
    by (simp add: mallory_edit_def check_user_def)
  have "(snd (confirm mallory_edit (set_up 42)))\<lparr>sent := sent (set_up 42)\<rparr> = set_up 42"
    using unauthorized_rejected [of mallory_edit "set_up 42"] e by simp
  moreover have "set_message mallory initial
        = (Returned (Some END), initial\<lparr>sent := sent initial @ [(chat_id mallory, not_authorized)]\<rparr>)
      \<and> stop_scheduled_message mallory initial
        = (Returned None, initial\<lparr>sent := sent initial @ [(chat_id mallory, not_authorized)]\<rparr>)"
    using unauthorized_rejected [of mallory initial] h by (simp add: Let_def)
  ultimately show ?thesis
    using h e by (simp add: mallory_def initial_def)
qed

subsection \<open>Helper facts\<close>

lemma owner_simps [simp]:
  "check_user (owner c t) = Inr True" "msg_text (owner c t) = t" "chat_id (owner c t) = c"
  by (simp_all add: owner_def check_user_def msg_text_def)

lemma check_user_message:
  "check_user u = Inr b \<Longrightarrow> \<exists>m. message u = Some m \<and> msg_text u = message_text m"
  by (auto simp: check_user_def msg_text_def split: option.splits)

lemmas text_defs = match_at_def is_space_def is_digit_def digit_val_def digit_char_def
  is_int_space_def lower_def lower_char_def str_def fmt_02d_def py_int_def strip_blanks_def
  digits_value_def char_of_eq_iff

lemma update_counters_eq:
  "update_counters s = s\<lparr>increment_counter := map_option (\<lambda>n. n + 1) (increment_counter s),
                          decrement_counter := map_option (\<lambda>n. n - 1) (decrement_counter s)\<rparr>"
  by (simp add: update_counters_def Let_def split: option.splits)

lemma update_counters_fields [simp]:
  "increment_counter (update_counters s) = map_option (\<lambda>n. n + 1) (increment_counter s)"
  "decrement_counter (update_counters s) = map_option (\<lambda>n. n - 1) (decrement_counter s)"
  "message_template (update_counters s) = message_template s"
  "message_time (update_counters s) = message_time s"
  "scheduled_job (update_counters s) = scheduled_job s"
  "job_queue (update_counters s) = job_queue s"
  "next_job_id (update_counters s) = next_job_id s"
  "sent (update_counters s) = sent s"
  by (simp_all add: update_counters_eq)

lemma send_scheduled_message_eq:
  "send_scheduled_message context s =
     (update_counters s)\<lparr>sent := sent s @
        [(case ctx_job context of Some j \<Rightarrow> job_chat_id j | None \<Rightarrow> ctx_chat_id context,
          parse_custom_message (message_template s) (update_counters s))]\<rparr>"
  by (simp add: send_scheduled_message_def send_message_def Let_def)

lemma trigger_job_eq:
  "trigger_job (owner c t) s = (Returned None,
     (update_counters s)\<lparr>sent := sent s @
        [(c, parse_custom_message (message_template s) (update_counters s)),
         (c, ''Scheduled job triggered manually.'')]\<rparr>)"
  by (simp add: trigger_job_def send_scheduled_message_eq reply_text_def update_context_def)

lemma set_up_fields:
  "scheduled_job (set_up c)
     = Some \<lparr>job_id = 0, job_time = \<lparr>hour = 9, minute = 0\<rparr>, job_chat_id = c\<rparr>"
  "job_queue (set_up c) = [\<lparr>job_id = 0, job_time = \<lparr>hour = 9, minute = 0\<rparr>, job_chat_id = c\<rparr>]"
  "message_template (set_up c) = ''Day {increment, 1}''"
  "increment_counter (set_up c) = Some 1"
  "decrement_counter (set_up c) = None"
  by (simp_all add: set_up_def handler_defs reply_text_def initial_def seed_counter_def
    parse_time_def time_def run_daily_def text_defs Let_def)

subsection \<open>Firing\<close>

text \<open>
  C3: a firing, the daily callback of a job as well as the manual trigger\_job, advances
  the counters once, renders the current template with the advanced counters and hands
  exactly one message with the rendered text to the gateway (trigger\_job then adds its
  own reply).  After the template "Day {increment, 1}" is set and confirmed, the first
  manual trigger delivers "Day 2" and the second "Day 3".
\<close>

theorem firing_sequence:
  "send_scheduled_message (job_context j) s =
      (update_counters s)\<lparr>sent := sent s @
         [(job_chat_id j, parse_custom_message (message_template s) (update_counters s))]\<rparr>
   \<and> snd (trigger_job (owner c t) s) =
      (update_counters s)\<lparr>sent := sent s @
         [(c, parse_custom_message (message_template s) (update_counters s)),
          (c, ''Scheduled job triggered manually.'')]\<rparr>
   \<and> scheduled_job (set_up c)
       = Some \<lparr>job_id = 0, job_time = \<lparr>hour = 9, minute = 0\<rparr>, job_chat_id = c\<rparr>
   \<and> sent (snd (trigger_job (owner c ''/trigger_job'') (set_up c)))
       = sent (set_up c) @ [(c, ''Day 2''), (c, ''Scheduled job triggered manually.'')]
   \<and> sent (snd (trigger_job (owner c ''/trigger_job'')
               (snd (trigger_job (owner c ''/trigger_job'') (set_up c)))))
       = sent (set_up c) @ [(c, ''Day 2''), (c, ''Scheduled job triggered manually.''),
                            (c, ''Day 3''), (c, ''Scheduled job triggered manually.'')]"
  by (simp add: send_scheduled_message_eq job_context_def trigger_job_eq set_up_fields
      parse_custom_message_def text_defs str_nat.simps)

text \<open>
  C10: trigger\_job of the allowed user runs the firing whatever the state: it does not
  look at the job or at the time.  In the initial state it advances nothing, renders the
  empty template and hands the empty text for the invoking chat to the gateway; in any
  state the counters after it are those after the daily callback of a job.
\<close>

theorem trigger_job_unconditional:
  "trigger_job (owner c t) s = (Returned None,
     s\<lparr>increment_counter := map_option (\<lambda>n. n + 1) (increment_counter s),
       decrement_counter := map_option (\<lambda>n. n - 1) (decrement_counter s),
       sent := sent s @
        [(c, parse_custom_message (message_template s) (update_counters s)),
         (c, ''Scheduled job triggered manually.'')]\<rparr>)
   \<and> trigger_job (owner c t) initial = (Returned None,
        initial\<lparr>sent := [(c, []), (c, ''Scheduled job triggered manually.'')]\<rparr>)
   \<and> increment_counter (snd (trigger_job (owner c t) s))
       = increment_counter (send_scheduled_message (job_context j) s)
   \<and> decrement_counter (snd (trigger_job (owner c t) s))
       = decrement_counter (send_scheduled_message (job_context j) s)"
  by (simp add: trigger_job_eq send_scheduled_message_eq update_counters_eq initial_def
      parse_custom_message_def)

subsection \<open>Stopping\<close>

text \<open>
  C9: stop\_scheduled\_message of the allowed user returns normally in both cases.
  Without a job it replies that there is no active scheduled message and changes nothing
  else; with a job it removes that job from the queue, clears the handle and replies that
  the scheduled message has been stopped.
\<close>

theorem stop_scheduled_message_authorized:
  assumes "check_user u = Inr True"
  shows "(scheduled_job s = None \<longrightarrow>
            stop_scheduled_message u s =
              (Returned None,
               s\<lparr>sent := sent s @ [(chat_id u, ''There is no active scheduled message.'')]\<rparr>))
       \<and> (\<forall>j. scheduled_job s = Some j \<longrightarrow>
            stop_scheduled_message u s =
              (Returned None,
               s\<lparr>scheduled_job := None,
                 job_queue := filter (\<lambda>x. job_id x \<noteq> job_id j) (job_queue s),
                 sent := sent s @ [(chat_id u, ''Scheduled message has been stopped.'')]\<rparr>)
            \<and> j \<notin> set (job_queue (snd (stop_scheduled_message u s))))"
  using assms by (auto simp add: stop_scheduled_message_def reply_text_def schedule_removal_def)

theorem stop_scheduled_message_authorized_witness:
  "check_user (owner 42 ''/stop_scheduled_message'') = Inr True
   \<and> scheduled_job initial = None
   \<and> stop_scheduled_message (owner 42 ''/stop_scheduled_message'') initial
       = (Returned None, initial\<lparr>sent := [(42, ''There is no active scheduled message.'')]\<rparr>)
   \<and> scheduled_job (set_up 42) \<noteq> None
   \<and> scheduled_job (snd (stop_scheduled_message (owner 42 ''/stop_scheduled_message'') (set_up 42)))
       = None
   \<and> job_queue (snd (stop_scheduled_message (owner 42 ''/stop_scheduled_message'') (set_up 42)))
       = []"
proof -
  have h: "check_user (owner 42 ''/stop_scheduled_message'') = Inr True" by simp
  show ?thesis
    using stop_scheduled_message_authorized [OF h, of initial]
      stop_scheduled_message_authorized [OF h, of "set_up 42"]
    by (simp add: initial_def set_up_fields)
qed

subsection \<open>Facts about the matcher\<close>

lemma is_digit_not:
  assumes "is_digit c"
  shows "\<not> is_space c" "\<not> is_int_space c" "c \<noteq> CHR ''}''" "c \<noteq> CHR ''{''"
    "c \<noteq> CHR ''-''" "c \<noteq> CHR ''+''" "c \<noteq> CHR ''_''"
  using assms by (auto simp: is_digit_def is_space_def is_int_space_def Let_def)

lemma is_space_not:
  assumes "is_space c"
  shows "c \<noteq> CHR ''}''" "c \<noteq> CHR ''{''"
  using assms by (auto simp: is_space_def Let_def)

lemma match_at_placeholder:
  assumes "blanks ws" "digits ds"
  shows "match_at k (placeholder k ws ds @ rest) = Some (ds, rest)"
proof -
  from assms obtain d ds' where ds: "ds = d # ds'" and d: "is_digit d"
    by (cases ds) (auto simp: digits_def)
  have lit: "literal (head k) (placeholder k ws ds @ rest) = Some (ws @ ds @ CHR ''}'' # rest)"
    by (simp add: literal_iff placeholder_def)
  have dw: "dropWhile is_space (ws @ ds @ CHR ''}'' # rest) = ds @ CHR ''}'' # rest"
    using assms(1) d ds is_digit_not(1) [OF d]
    by (simp add: blanks_def list_all_iff dropWhile_append2)
  have tw: "takeWhile is_digit (ds @ CHR ''}'' # rest) = ds"
    using assms(2) by (simp add: digits_def list_all_iff takeWhile_append2 is_digit_def)
  have dd: "dropWhile is_digit (ds @ CHR ''}'' # rest) = CHR ''}'' # rest"
    using assms(2) by (simp add: digits_def list_all_iff dropWhile_append2 is_digit_def)
  show ?thesis
    using assms(2) by (simp add: match_at_def lit dw tw dd digits_def)
qed

lemma match_at_Some_D:
  assumes "match_at k s = Some (ds, rest)"
  shows "\<exists>ws. blanks ws \<and> digits ds \<and> s = placeholder k ws ds @ rest"
proof -
  from assms obtain r where r: "literal (head k) s = Some r"
    by (auto simp: match_at_def split: option.splits)
  then have s: "s = head k @ r" by (simp add: literal_iff)
  let ?r1 = "dropWhile is_space r"
  from assms r have ds: "ds = takeWhile is_digit ?r1" and ne: "ds \<noteq> []"
    and dd: "dropWhile is_digit ?r1 = CHR ''}'' # rest"
    by (auto simp: match_at_def Let_def split: if_splits list.splits)
  have "r = takeWhile is_space r @ ?r1" by simp
  moreover have "?r1 = ds @ CHR ''}'' # rest"
    using ds dd by (metis takeWhile_dropWhile_id)
  ultimately have "s = placeholder k (takeWhile is_space r) ds @ rest"
    using s by (simp add: placeholder_def)
  moreover have "blanks (takeWhile is_space r)"
    by (auto simp: blanks_def list_all_iff dest: set_takeWhileD)
  moreover have "digits ds"
    using ds ne by (auto simp: digits_def list_all_iff dest: set_takeWhileD)
  ultimately show ?thesis by blast
qed

lemma match_at_iff:
  "match_at k s = Some (ds, rest) \<longleftrightarrow>
     (\<exists>ws. blanks ws \<and> digits ds \<and> s = placeholder k ws ds @ rest)"
  using match_at_Some_D match_at_placeholder by blast

lemma placeholder_braces:
  assumes "blanks ws" "digits ds"
  shows "\<exists>body. placeholder k ws ds = CHR ''{'' # body \<and> CHR ''{'' \<notin> set body"
proof -
  have "CHR ''{'' \<notin> set ws" using assms(1) is_space_not(2) by (auto simp: blanks_def list_all_iff)
  moreover have "CHR ''{'' \<notin> set ds" using assms(2) is_digit_not(4) by (auto simp: digits_def list_all_iff)
  ultimately show ?thesis by (cases k) (auto simp: placeholder_def)
qed

lemma match_at_mono:
  "match_at k pre = Some (g, r) \<Longrightarrow> match_at k (pre @ zs) = Some (g, r @ zs)"
  by (auto simp: match_at_iff)

lemma match_at_not_brace:
  "CHR ''{'' \<noteq> c \<Longrightarrow> match_at k (c # cs) = None"
  by (cases k) (auto simp: match_at_def)

lemma match_at_before_brace:
  assumes "match_at k (pre @ CHR ''{'' # ys) = Some (g, r)" "pre \<noteq> []"
  shows "\<exists>r'. r = r' @ CHR ''{'' # ys \<and> match_at k pre = Some (g, r')"
proof -
  from assms(1) obtain ws where ws: "blanks ws" and g: "digits g"
    and eq: "pre @ CHR ''{'' # ys = placeholder k ws g @ r"
    by (auto simp: match_at_iff)
  from placeholder_braces [OF ws g] obtain body where
    body: "placeholder k ws g = CHR ''{'' # body" and nb: "CHR ''{'' \<notin> set body"
    by blast
  from assms(2) obtain p pre' where pre: "pre = p # pre'" by (cases pre) auto
  from eq body pre have eq': "pre' @ CHR ''{'' # ys = body @ r" and p: "p = CHR ''{''"
    by auto
  from eq' obtain us where
    "(pre' = body @ us \<and> us @ CHR ''{'' # ys = r) \<or> (pre' @ us = body \<and> CHR ''{'' # ys = us @ r)"
    by (auto simp: append_eq_append_conv2)
  then have "\<exists>us. pre' = body @ us \<and> us @ CHR ''{'' # ys = r"
  proof
    assume "pre' = body @ us \<and> us @ CHR ''{'' # ys = r"
    then show ?thesis by blast
  next
    assume h: "pre' @ us = body \<and> CHR ''{'' # ys = us @ r"
    show ?thesis
    proof (cases us)
      case Nil
      with h show ?thesis by auto
    next
      case (Cons x xs)
      with h have "x = CHR ''{''" by simp
      with Cons h nb show ?thesis by auto
    qed
  qed
  then obtain us where us: "pre' = body @ us" "us @ CHR ''{'' # ys = r" by blast
  have "pre = placeholder k ws g @ us" using pre p us(1) body by simp
  then have "match_at k pre = Some (g, us)" using ws g by (simp add: match_at_placeholder)
  with us(2) show ?thesis by auto
qed

lemma match_at_split:
  assumes "pre \<noteq> []"
  shows "match_at k (pre @ CHR ''{'' # ys)
         = map_option (\<lambda>(g, r). (g, r @ CHR ''{'' # ys)) (match_at k pre)"
proof (cases "match_at k pre")
  case None
  show ?thesis
  proof (cases "match_at k (pre @ CHR ''{'' # ys)")
    case (Some a)
    then obtain g r where "match_at k (pre @ CHR ''{'' # ys) = Some (g, r)" by (cases a) auto
    from match_at_before_brace [OF this assms] None show ?thesis by auto
  qed (simp add: None)
next
  case (Some a)
  then show ?thesis by (cases a) (simp add: match_at_mono)
qed

lemma re_sub_no_brace:
  "CHR ''{'' \<notin> set xs \<Longrightarrow> re_sub k r (xs @ ys) = xs @ re_sub k r ys"
  by (induction xs) (simp_all add: match_at_not_brace)

lemma re_sub_split:
  "re_sub k r (pre @ CHR ''{'' # ys) = re_sub k r pre @ re_sub k r (CHR ''{'' # ys)"
proof (induction k r pre rule: re_sub.induct)
  case (1 k repl)
  show ?case by simp
next
  case (2 k repl c cs)
  have m: "match_at k ((c # cs) @ CHR ''{'' # ys)
           = map_option (\<lambda>(g, r). (g, r @ CHR ''{'' # ys)) (match_at k (c # cs))"
    by (rule match_at_split) simp
  show ?case
  proof (cases "match_at k (c # cs)")
    case None
    with m have "match_at k (c # cs @ CHR ''{'' # ys) = None" by simp
    with None "2.IH"(1) show ?thesis by simp
  next
    case (Some a)
    obtain g rest where a: "a = (g, rest)" by (cases a)
    with m Some have "match_at k (c # cs @ CHR ''{'' # ys) = Some (g, rest @ CHR ''{'' # ys)"
      by simp
    moreover have "re_sub k repl (rest @ CHR ''{'' # ys)
        = re_sub k repl rest @ re_sub k repl (CHR ''{'' # ys)"
      using "2.IH"(2) Some a by simp
    ultimately show ?thesis using Some a by simp
  qed
qed

lemma head_differs: "k \<noteq> k' \<Longrightarrow> match_at k (placeholder k' ws ds @ post) = None"
  by (cases k; cases k') (simp_all add: match_at_def placeholder_def)

lemma re_sub_placeholder:
  assumes "blanks ws" "digits ds"
  shows "re_sub k r (pre @ placeholder k ws ds @ post) = re_sub k r pre @ r @ re_sub k r post"
proof -
  from placeholder_braces [OF assms] obtain body where
    body: "placeholder k ws ds = CHR ''{'' # body" by blast
  have "re_sub k r (placeholder k ws ds @ post) = r @ re_sub k r post"
    using match_at_placeholder [OF assms, of k post] body by simp
  then show ?thesis
    using re_sub_split [of k r pre "body @ post"] body by simp
qed

lemma re_sub_other_placeholder:
  assumes "blanks ws" "digits ds" "k \<noteq> k'"
  shows "re_sub k r (pre @ placeholder k' ws ds @ post)
         = re_sub k r pre @ placeholder k' ws ds @ re_sub k r post"
proof -
  from placeholder_braces [OF assms(1,2)] obtain body where
    body: "placeholder k' ws ds = CHR ''{'' # body" and nb: "CHR ''{'' \<notin> set body" by blast
  have "re_sub k r (placeholder k' ws ds @ post) = placeholder k' ws ds @ re_sub k r post"
    using head_differs [OF assms(3), of ws ds post] body re_sub_no_brace [OF nb, of k r post]
    by simp
  then show ?thesis
    using re_sub_split [of k r pre "body @ post"] body by simp
qed

lemma re_search_split:
  "re_search k (pre @ CHR ''{'' # ys)
   = (case re_search k pre of Some g \<Rightarrow> Some g | None \<Rightarrow> re_search k (CHR ''{'' # ys))"
proof (induction pre)
  case Nil
  show ?case by simp
next
  case (Cons c cs)
  have m: "match_at k ((c # cs) @ CHR ''{'' # ys)
           = map_option (\<lambda>(g, r). (g, r @ CHR ''{'' # ys)) (match_at k (c # cs))"
    by (rule match_at_split) simp
  show ?case
  proof (cases "match_at k (c # cs)")
    case None
    with m Cons show ?thesis by simp
  next
    case (Some a)
    with m show ?thesis by (cases a) simp
  qed
qed

lemma re_search_first:
  assumes "blanks ws" "digits ds" "re_search k pre = None"
  shows "re_search k (pre @ placeholder k ws ds @ post) = Some ds"
proof -
  from placeholder_braces [OF assms(1,2)] obtain body where
    body: "placeholder k ws ds = CHR ''{'' # body" by blast
  have "re_search k (placeholder k ws ds @ post) = Some ds"
    using match_at_placeholder [OF assms(1,2), of k post] body by simp
  then show ?thesis
    using re_search_split [of k pre "body @ post"] body assms(3) by simp
qed

lemma re_search_digits: "re_search k s = Some g \<Longrightarrow> digits g"
proof (induction s)
  case Nil
  then show ?case by simp
next
  case (Cons c cs)
  then show ?case
    by (cases "match_at k (c # cs)") (auto dest: match_at_Some_D)
qed

lemma re_search_None_sub: "re_search k t = None \<Longrightarrow> re_sub k r t = t"
  by (induction t) (auto split: option.splits)

lemma re_search_None_iff:
  "re_search k t = None \<longleftrightarrow> (\<forall>i < length t. match_at k (drop i t) = None)"
proof (induction t)
  case Nil
  show ?case by simp
next
  case (Cons c cs)
  have "(\<forall>i < length (c # cs). match_at k (drop i (c # cs)) = None)
        \<longleftrightarrow> match_at k (c # cs) = None \<and> (\<forall>i < length cs. match_at k (drop i cs) = None)"
    by (auto simp: less_Suc_eq_0_disj)
  with Cons show ?case by (auto split: option.splits)
qed

lemma digits_acc_digits:
  "list_all is_digit cs \<Longrightarrow> digits_acc n cs = Some (foldl (\<lambda>n c. 10 * n + digit_val c) n cs)"
  by (induction n cs rule: digits_acc.induct) simp_all

lemma strip_blanks_id:
  assumes "s \<noteq> []" "\<not> is_int_space (hd s)" "\<not> is_int_space (last s)"
  shows "strip_blanks s = s"
proof -
  from assms(1,2) have a: "dropWhile is_int_space s = s" by (cases s) auto
  from assms(1,3) have "dropWhile is_int_space (rev s) = rev s"
    by (cases "rev s") (auto simp: last_rev [symmetric] simp del: last_rev)
  with a show ?thesis by (simp add: strip_blanks_def)
qed

lemma py_int_digits:
  assumes "digits g"
  shows "py_int g = Inr (int (decimal g))"
proof -
  from assms obtain c cs where g: "g = c # cs" and c: "is_digit c" and cs: "list_all is_digit cs"
    by (cases g) (auto simp: digits_def)
  have "is_digit (last g)" using assms by (auto simp: digits_def list_all_iff)
  then have "strip_blanks g = g"
    using g c by (intro strip_blanks_id) (auto dest: is_digit_not(2))
  moreover have "digits_value g = Some (decimal g)"
    using g c cs by (simp add: digits_value_def decimal_def digits_acc_digits)
  ultimately show ?thesis
    using g is_digit_not(5,6) [OF c] by (simp add: py_int_def)
qed

lemma digit_char_ok:
  assumes "d < 10"
  shows "is_digit (digit_char d)" "digit_val (digit_char d) = d"
  using assms by (simp_all add: is_digit_def digit_val_def digit_char_def)

lemma decimal_snoc: "decimal (xs @ [c]) = 10 * decimal xs + digit_val c"
  by (simp add: decimal_def)

lemma str_nat_digits: "digits (str_nat n) \<and> decimal (str_nat n) = n"
proof (induction n rule: str_nat.induct)
  case (1 n)
  show ?case
  proof (cases "n < 10")
    case True
    then show ?thesis
      by (subst (1 2) str_nat.simps) (simp add: digits_def decimal_def digit_char_ok)
  next
    case False
    with 1 have ih: "digits (str_nat (n div 10))" "decimal (str_nat (n div 10)) = n div 10"
      by simp_all
    have m: "n mod 10 < 10" by simp
    from False have eq: "str_nat n = str_nat (n div 10) @ [digit_char (n mod 10)]"
      by (subst str_nat.simps) simp
    show ?thesis
      using ih digit_char_ok [OF m] by (simp add: eq decimal_snoc) (simp add: digits_def)
  qed
qed

lemma seed_counter_eq:
  "seed_counter (re_search k t) old
   = Inr (case re_search k t of None \<Rightarrow> old | Some g \<Rightarrow> Some (int (decimal g)))"
  by (auto simp: seed_counter_def py_int_digits dest: re_search_digits split: option.splits)

lemma set_message_authorized:
  assumes "check_user u = Inr True"
  shows "set_message u s = (Returned (Some SET_TIME),
     s\<lparr>message_template := msg_text u,
       increment_counter := (case re_search Increment (msg_text u) of
           None \<Rightarrow> increment_counter s | Some g \<Rightarrow> Some (int (decimal g))),
       decrement_counter := (case re_search Decrement (msg_text u) of
           None \<Rightarrow> decrement_counter s | Some g \<Rightarrow> Some (int (decimal g))),
       sent := sent s @ [(chat_id u, ''Message set. Now, please specify the time for the ''
                            @ ''daily message (in 24-hour format, e.g., 14:30 for 2:30 PM).'')]\<rparr>)"
  using assms
  by (simp add: set_message_def seed_counter_eq reply_text_def Let_def split: option.splits)

lemma set_message_eq:
  "set_message (owner c t) s = (Returned (Some SET_TIME),
     s\<lparr>message_template := t,
       increment_counter := (case re_search Increment t of
           None \<Rightarrow> increment_counter s | Some g \<Rightarrow> Some (int (decimal g))),
       decrement_counter := (case re_search Decrement t of
           None \<Rightarrow> decrement_counter s | Some g \<Rightarrow> Some (int (decimal g))),
       sent := sent s @ [(c, ''Message set. Now, please specify the time for the ''
                            @ ''daily message (in 24-hour format, e.g., 14:30 for 2:30 PM).'')]\<rparr>)"
  using set_message_authorized [of "owner c t" s] by simp

lemma funpow_update_counters [simp]:
  "increment_counter ((update_counters ^^ N) s) = map_option (\<lambda>n. n + int N) (increment_counter s)"
  "decrement_counter ((update_counters ^^ N) s) = map_option (\<lambda>n. n - int N) (decrement_counter s)"
  by (induction N) (simp_all add: option.map_comp comp_def option.map_ident algebra_simps)

subsection \<open>Seeding and advancing the counters\<close>

text \<open>
  C2, as stated: seeding (set\_message) replaces the counter state as a whole, so that a
  kind whose pattern is absent from the new template ends inactive (None).  It does not:
  after the template "Day {increment, 5}", the template "hello" leaves the increment
  counter at 5.
\<close>

theorem seeding_keeps_absent_counter:
  "re_search Increment ''hello'' = None
   \<and> increment_counter (snd (set_message (owner 42 ''Day {increment, 5}'') initial)) = Some 5
   \<and> increment_counter (snd (set_message (owner 42 ''hello'')
        (snd (set_message (owner 42 ''Day {increment, 5}'') initial)))) = Some 5"
  by (simp add: set_message_eq initial_def decimal_def text_defs)

text \<open>
  C2, amended: set\_message of the allowed user stores the text as the template and
  returns SET\_TIME; a kind whose pattern is absent from the text keeps the counter it had
  (inactive or not), and a kind whose pattern is present has its counter set to the
  number written in the leftmost match, which is the first placeholder of that kind in
  the text.
\<close>

theorem seeding_replaces_present_only:
  "fst (set_message (owner c t) s) = Returned (Some SET_TIME)
   \<and> message_template (snd (set_message (owner c t) s)) = t
   \<and> (re_search Increment t = None \<longrightarrow>
        increment_counter (snd (set_message (owner c t) s)) = increment_counter s)
   \<and> (re_search Decrement t = None \<longrightarrow>
        decrement_counter (snd (set_message (owner c t) s)) = decrement_counter s)
   \<and> (\<forall>g. re_search Increment t = Some g \<longrightarrow>
        increment_counter (snd (set_message (owner c t) s)) = Some (int (decimal g)))
   \<and> (\<forall>g. re_search Decrement t = Some g \<longrightarrow>
        decrement_counter (snd (set_message (owner c t) s)) = Some (int (decimal g)))
   \<and> (\<forall>pre ws ds post.
        t = pre @ placeholder Increment ws ds @ post \<and> blanks ws \<and> digits ds
        \<and> re_search Increment pre = None \<longrightarrow>
        increment_counter (snd (set_message (owner c t) s)) = Some (int (decimal ds)))
   \<and> (\<forall>pre ws ds post.
        t = pre @ placeholder Decrement ws ds @ post \<and> blanks ws \<and> digits ds
        \<and> re_search Decrement pre = None \<longrightarrow>
        decrement_counter (snd (set_message (owner c t) s)) = Some (int (decimal ds)))"
  by (auto simp: set_message_eq re_search_first)

theorem seeding_replaces_present_only_witness:
  "re_search Decrement ''Day {increment, 5}'' = None
   \<and> increment_counter (snd (set_message (owner 42 ''Day {increment, 5}'')
        (initial\<lparr>decrement_counter := Some 9\<rparr>))) = Some 5
   \<and> decrement_counter (snd (set_message (owner 42 ''Day {increment, 5}'')
        (initial\<lparr>decrement_counter := Some 9\<rparr>))) = Some 9"
proof -
  let ?t = "''Day {increment, 5}''"
  let ?s = "initial\<lparr>decrement_counter := Some 9\<rparr>"
  note th = seeding_replaces_present_only [of 42 ?t ?s]
  have a: "re_search Decrement ?t = None" by (simp add: text_defs)
  have b: "?t = ''Day '' @ placeholder Increment '' '' ''5'' @ []
           \<and> blanks '' '' \<and> digits ''5'' \<and> re_search Increment ''Day '' = None"
    by (simp add: placeholder_def blanks_def digits_def text_defs)
  have d: "decimal ''5'' = 5" by (simp add: decimal_def digit_val_def)
  have "decrement_counter (snd (set_message (owner 42 ?t) ?s)) = decrement_counter ?s"
    using th a by blast
  moreover have "increment_counter (snd (set_message (owner 42 ?t) ?s)) = Some (int (decimal ''5''))"
    using th b by blast
  ultimately show ?thesis using a d by (simp add: initial_def)
qed

text \<open>
  C8, as stated: after seeding a template that contains the placeholder for seed k the
  increment counter is k.  With two increment placeholders the first one wins: the
  template below contains the placeholder for 5 and the counter is 1.
\<close>

theorem seed_is_first_occurrence:
  "increment_counter
     (snd (set_message (owner 42 (''{increment, 1} and '' @ ''{increment, '' @ str 5 @ ''}'')) initial))
   = Some 1"
  by (simp add: set_message_eq initial_def decimal_def text_defs str_nat.simps)

text \<open>
  C8, amended: for every seed k and every N, after seeding a template whose first
  increment placeholder is the one for k the increment counter is k, and after N calls of
  update\_counters it is k + N; likewise the decrement counter is k and then k - N, below
  zero when N is larger than k; a counter that is inactive stays inactive.
\<close>

theorem counters_seed_and_advance:
  "(t = pre @ ''{increment, '' @ str (int k) @ ''}'' @ post \<and> re_search Increment pre = None \<longrightarrow>
      increment_counter (snd (set_message (owner c t) s)) = Some (int k)
      \<and> increment_counter ((update_counters ^^ N) (snd (set_message (owner c t) s)))
          = Some (int k + int N))
   \<and> (t = pre @ ''{decrement, '' @ str (int k) @ ''}'' @ post \<and> re_search Decrement pre = None \<longrightarrow>
      decrement_counter (snd (set_message (owner c t) s)) = Some (int k)
      \<and> decrement_counter ((update_counters ^^ N) (snd (set_message (owner c t) s)))
          = Some (int k - int N))
   \<and> (increment_counter s = None \<longrightarrow> increment_counter ((update_counters ^^ N) s) = None)
   \<and> (decrement_counter s = None \<longrightarrow> decrement_counter ((update_counters ^^ N) s) = None)"
proof -
  have str: "str (int k) = str_nat k" by (simp add: str_def)
  have b: "blanks '' ''" by (simp add: blanks_def is_space_def)
  have d: "digits (str_nat k)" "decimal (str_nat k) = k" using str_nat_digits by simp_all
  have p: "\<And>kd. head kd @ '' '' @ str_nat k @ ''}'' @ post = placeholder kd '' '' (str_nat k) @ post"
    by (simp add: placeholder_def)
  have i: "re_search Increment pre = None \<Longrightarrow>
      re_search Increment (pre @ ''{increment, '' @ str (int k) @ ''}'' @ post) = Some (str_nat k)"
    using re_search_first [OF b d(1), of Increment pre post] by (simp add: str placeholder_def)
  have j: "re_search Decrement pre = None \<Longrightarrow>
      re_search Decrement (pre @ ''{decrement, '' @ str (int k) @ ''}'' @ post) = Some (str_nat k)"
    using re_search_first [OF b d(1), of Decrement pre post] by (simp add: str placeholder_def)
  show ?thesis
    using i j d(2) by (auto simp: set_message_eq)
qed

theorem counters_seed_and_advance_witness:
  "increment_counter (snd (set_message (owner 42 ''Day {increment, 5}'') initial)) = Some 5
   \<and> increment_counter ((update_counters ^^ 3)
        (snd (set_message (owner 42 ''Day {increment, 5}'') initial))) = Some 8
   \<and> decrement_counter ((update_counters ^^ 3)
        (snd (set_message (owner 42 ''{decrement, 2}'') initial))) = Some (- 1)
   \<and> increment_counter ((update_counters ^^ 3) initial) = None"
proof -
  have s5: "str (int 5) = ''5''" and s2: "str (int 2) = ''2''"
    by (simp_all add: text_defs str_nat.simps)
  have a: "re_search Increment ''Day '' = None" "re_search Decrement [] = None"
    by (simp_all add: text_defs)
  have n: "increment_counter initial = None" by (simp add: initial_def)
  from counters_seed_and_advance [of "''Day {increment, 5}''" "''Day ''" 5 "[]" 42 initial 3]
    counters_seed_and_advance [of "''{decrement, 2}''" "[]" 2 "[]" 42 initial 3]
    counters_seed_and_advance [of "[]" "[]" 0 "[]" 42 initial 3]
    s5 s2 a n
  show ?thesis by simp
qed

subsection \<open>Rendering\<close>

text \<open>
  C7, as stated: the value of an active counter replaces every occurrence of its pattern,
  so the rendering of a text around an increment placeholder is the rendering of what
  stands before it, the value, and the rendering of what stands after it.  With both
  counters active this fails where the substituted value completes a decrement
  placeholder: the decrement substitution runs on the result of the increment one and
  replaces the whole.
\<close>

theorem render_nested_placeholder:
  "blanks '' '' \<and> digits ''1''
   \<and> increment_counter both_active = Some 5
   \<and> parse_custom_message (''{decrement, '' @ placeholder Increment '' '' ''1'' @ ''}'') both_active
       = ''2''
   \<and> parse_custom_message ''{decrement, '' both_active @ str 5 @ parse_custom_message ''}'' both_active
       = ''{decrement, 5}''"
  by (simp add: both_active_def initial_def parse_custom_message_def placeholder_def
      blanks_def digits_def text_defs str_nat.simps)

text \<open>
  C7, amended: parse\_custom\_message depends on the template and the two counters only.
  A template without a match of either pattern is returned as it is, whatever the
  counters.  An occurrence of a kind whose counter is inactive stays in place as literal
  text, between the renderings of the text before and after it.  An occurrence of the
  decrement pattern is replaced by the decrement counter's value, and an occurrence of the
  increment pattern by the increment counter's value when the decrement counter is
  inactive.  With both counters active the increment value is substituted first and the
  decrement substitution then runs over the result.
\<close>

theorem render_two_passes:
  "(re_search Increment t = None \<and> re_search Decrement t = None \<longrightarrow>
      parse_custom_message t s = t)
   \<and> (increment_counter s = increment_counter s' \<and> decrement_counter s = decrement_counter s' \<longrightarrow>
      parse_custom_message t s = parse_custom_message t s')
   \<and> (blanks ws \<and> digits ds \<longrightarrow>
        (increment_counter s = None \<longrightarrow>
           parse_custom_message (pre @ placeholder Increment ws ds @ post) s
           = parse_custom_message pre s @ placeholder Increment ws ds @ parse_custom_message post s)
      \<and> (decrement_counter s = None \<longrightarrow>
           parse_custom_message (pre @ placeholder Decrement ws ds @ post) s
           = parse_custom_message pre s @ placeholder Decrement ws ds @ parse_custom_message post s)
      \<and> (\<forall>d. decrement_counter s = Some d \<longrightarrow>
           parse_custom_message (pre @ placeholder Decrement ws ds @ post) s
           = parse_custom_message pre s @ str d @ parse_custom_message post s)
      \<and> (\<forall>i. increment_counter s = Some i \<and> decrement_counter s = None \<longrightarrow>
           parse_custom_message (pre @ placeholder Increment ws ds @ post) s
           = parse_custom_message pre s @ str i @ parse_custom_message post s)
      \<and> (\<forall>i d. increment_counter s = Some i \<and> decrement_counter s = Some d \<longrightarrow>
           parse_custom_message (pre @ placeholder Increment ws ds @ post) s
           = re_sub Decrement (str d)
               (re_sub Increment (str i) pre @ str i @ re_sub Increment (str i) post)))"
proof -
  have a: "re_search Increment t = None \<and> re_search Decrement t = None \<longrightarrow>
      parse_custom_message t s = t"
    by (simp add: parse_custom_message_def re_search_None_sub split: option.splits)
  have b: "increment_counter s = increment_counter s' \<and> decrement_counter s = decrement_counter s'
      \<longrightarrow> parse_custom_message t s = parse_custom_message t s'"
    by (simp add: parse_custom_message_def)
  have c: "parse_custom_message (pre @ placeholder Increment ws ds @ post) s
           = parse_custom_message pre s @ placeholder Increment ws ds @ parse_custom_message post s"
    if "blanks ws" "digits ds" "increment_counter s = None"
    using that
    by (simp add: parse_custom_message_def re_sub_other_placeholder split: option.splits)
  have d: "parse_custom_message (pre @ placeholder Decrement ws ds @ post) s
           = parse_custom_message pre s @ placeholder Decrement ws ds @ parse_custom_message post s"
    if "blanks ws" "digits ds" "decrement_counter s = None"
    using that
    by (simp add: parse_custom_message_def re_sub_other_placeholder split: option.splits)
  have e: "parse_custom_message (pre @ placeholder Decrement ws ds @ post) s
           = parse_custom_message pre s @ str d @ parse_custom_message post s"
    if "blanks ws" "digits ds" "decrement_counter s = Some d" for d
    using that
    by (simp add: parse_custom_message_def re_sub_other_placeholder re_sub_placeholder
        split: option.splits)
  have f: "parse_custom_message (pre @ placeholder Increment ws ds @ post) s
           = parse_custom_message pre s @ str i @ parse_custom_message post s"
    if "blanks ws" "digits ds" "increment_counter s = Some i" "decrement_counter s = None" for i
    using that by (simp add: parse_custom_message_def re_sub_placeholder)
  have g: "parse_custom_message (pre @ placeholder Increment ws ds @ post) s
           = re_sub Decrement (str d)
               (re_sub Increment (str i) pre @ str i @ re_sub Increment (str i) post)"
    if "blanks ws" "digits ds" "increment_counter s = Some i" "decrement_counter s = Some d" for i d
    using that by (simp add: parse_custom_message_def re_sub_placeholder)
  from a b c d e f g show ?thesis by blast
qed

theorem render_two_passes_witness:
  "parse_custom_message ''plain text'' both_active = ''plain text''
   \<and> parse_custom_message ''Day {increment, 1} of {decrement,9}''
        (initial\<lparr>increment_counter := Some 2\<rparr>)
       = ''Day 2 of {decrement,9}''"
proof -
  let ?s = "initial\<lparr>increment_counter := Some 2\<rparr>"
  have n: "re_search Increment ''plain text'' = None \<and> re_search Decrement ''plain text'' = None"
    by (simp add: text_defs)
  have p: "blanks '' '' \<and> digits ''1''" by (simp add: blanks_def digits_def text_defs)
  have c: "increment_counter ?s = Some 2 \<and> decrement_counter ?s = None"
    by (simp add: initial_def)
  have "parse_custom_message ''plain text'' both_active = ''plain text''"
    using render_two_passes [where t = "''plain text''" and s = both_active] n by blast
  moreover have "parse_custom_message (''Day '' @ placeholder Increment '' '' ''1'' @ '' of {decrement,9}'') ?s
      = parse_custom_message ''Day '' ?s @ str 2 @ parse_custom_message '' of {decrement,9}'' ?s"
    using render_two_passes [where s = ?s and ws = "'' ''" and ds = "''1''" and pre = "''Day ''"
        and post = "'' of {decrement,9}''"] p c by blast
  ultimately show ?thesis
    by (simp add: placeholder_def parse_custom_message_def initial_def text_defs str_nat.simps)
qed

subsection \<open>What the conversation changes\<close>

text \<open>
  C1, as stated: the template and the counters that an installed job uses change only at
  the confirmation with "yes"; after set\_message, and after a "no" or a cancel, they are
  what they were.  They are not: the module has one template and one pair of counters, and
  set\_message writes them at once.  After a new text is entered and the conversation is
  cancelled, the job installed before sends the new text.
\<close>

theorem set_message_changes_active_state:
  "scheduled_job (set_up 42)
     = Some \<lparr>job_id = 0, job_time = \<lparr>hour = 9, minute = 0\<rparr>, job_chat_id = 42\<rparr>
   \<and> message_template (set_up 42) = ''Day {increment, 1}''
   \<and> increment_counter (set_up 42) = Some 1
   \<and> message_template (snd (set_message (owner 42 ''Bye {increment, 7}'') (set_up 42)))
       = ''Bye {increment, 7}''
   \<and> increment_counter (snd (set_message (owner 42 ''Bye {increment, 7}'') (set_up 42))) = Some 7
   \<and> last (sent (send_scheduled_message
        (job_context \<lparr>job_id = 0, job_time = \<lparr>hour = 9, minute = 0\<rparr>, job_chat_id = 42\<rparr>)
        (snd (cancel (owner 42 ''/cancel'')
           (snd (set_message (owner 42 ''Bye {increment, 7}'') (set_up 42)))))))
       = (42, ''Bye 8'')"
  by (simp add: set_up_fields set_message_eq send_scheduled_message_eq job_context_def cancel_def
      reply_text_def parse_custom_message_def decimal_def text_defs str_nat.simps)

lemma frame_fields:
  "message_template (reply_text u x s) = message_template s"
  "increment_counter (reply_text u x s) = increment_counter s"
  "decrement_counter (reply_text u x s) = decrement_counter s"
  "message_template (schedule_removal j s) = message_template s"
  "increment_counter (schedule_removal j s) = increment_counter s"
  "decrement_counter (schedule_removal j s) = decrement_counter s"
  by (simp_all add: reply_text_def schedule_removal_def)

text \<open>
  C1, amended: of the conversation's handlers, create\_scheduled\_message, set\_time,
  confirm (whatever the answer) and cancel leave the template and both counters as they
  were; set\_message of the allowed user overwrites the template with the text received
  and seeds the counters from it, at that step.
\<close>

theorem template_and_counters_frame:
  "(\<forall>h \<in> {create_scheduled_message, set_time, confirm, cancel}.
      message_template (snd (h u s)) = message_template s
      \<and> increment_counter (snd (h u s)) = increment_counter s
      \<and> decrement_counter (snd (h u s)) = decrement_counter s)
   \<and> (check_user u = Inr True \<longrightarrow>
        message_template (snd (set_message u s)) = msg_text u
        \<and> increment_counter (snd (set_message u s))
            = (case re_search Increment (msg_text u) of
                 None \<Rightarrow> increment_counter s | Some g \<Rightarrow> Some (int (decimal g)))
        \<and> decrement_counter (snd (set_message u s))
            = (case re_search Decrement (msg_text u) of
                 None \<Rightarrow> decrement_counter s | Some g \<Rightarrow> Some (int (decimal g))))"
proof -
  have "message_template (snd (create_scheduled_message u s)) = message_template s
      \<and> increment_counter (snd (create_scheduled_message u s)) = increment_counter s
      \<and> decrement_counter (snd (create_scheduled_message u s)) = decrement_counter s"
    by (simp add: create_scheduled_message_def frame_fields split: sum.splits)
  moreover have "message_template (snd (cancel u s)) = message_template s
      \<and> increment_counter (snd (cancel u s)) = increment_counter s
      \<and> decrement_counter (snd (cancel u s)) = decrement_counter s"
    by (simp add: cancel_def frame_fields split: sum.splits)
  moreover have "message_template (snd (set_time u s)) = message_template s
      \<and> increment_counter (snd (set_time u s)) = increment_counter s
      \<and> decrement_counter (snd (set_time u s)) = decrement_counter s"
    by (simp add: set_time_def frame_fields Let_def split: sum.splits prod.splits)
  moreover have "message_template (snd (confirm u s)) = message_template s
      \<and> increment_counter (snd (confirm u s)) = increment_counter s
      \<and> decrement_counter (snd (confirm u s)) = decrement_counter s"
    by (auto simp: confirm_def frame_fields run_daily_def Let_def
        split: sum.splits prod.splits option.splits)
  ultimately show ?thesis
    by (simp add: set_message_authorized)
qed

theorem template_and_counters_frame_witness:
  "check_user (owner 42 ''no'') = Inr True
   \<and> message_template (snd (confirm (owner 42 ''no'') (set_up 42))) = ''Day {increment, 1}''
   \<and> increment_counter (snd (confirm (owner 42 ''no'') (set_up 42))) = Some 1
   \<and> message_template (snd (set_message (owner 42 ''no'') (set_up 42))) = ''no''"
  using template_and_counters_frame [of "owner 42 ''no''" "set_up 42"]
  by (simp add: set_up_fields)

subsection \<open>The scheduled job\<close>

lemma job_inv_reply [simp]: "job_inv (reply_text u x s) = job_inv s"
  by (simp add: job_inv_def reply_text_def)

lemma job_inv_send [simp]: "job_inv (send_scheduled_message ctx s) = job_inv s"
  by (simp add: job_inv_def send_scheduled_message_eq)

lemma job_inv_set_message: "job_inv s \<Longrightarrow> job_inv (snd (set_message u s))"
proof (cases "check_user u = Inr True")
  case True
  assume "job_inv s"
  with True show ?thesis by (simp add: set_message_authorized job_inv_def)
next
  case False
  assume "job_inv s"
  with False show ?thesis by (auto simp: set_message_def split: sum.splits)
qed

lemma job_inv_set_time: "job_inv s \<Longrightarrow> job_inv (snd (set_time u s))"
  by (auto simp: set_time_def job_inv_def reply_text_def Let_def split: sum.splits prod.splits)

lemma confirm_yes:
  assumes "job_inv s" "check_user u = Inr True" "lower (msg_text u) = ''yes''"
    "message_time s = Some t"
  shows "confirm u s = (Returned (Some END),
     s\<lparr>scheduled_job := Some \<lparr>job_id = next_job_id s, job_time = t, job_chat_id = chat_id u\<rparr>,
       job_queue := [\<lparr>job_id = next_job_id s, job_time = t, job_chat_id = chat_id u\<rparr>],
       next_job_id := Suc (next_job_id s),
       sent := sent s @ [(chat_id u, ''Scheduled message has been set up successfully!'')]\<rparr>)"
  using assms
  by (auto simp: confirm_def job_inv_def run_daily_def schedule_removal_def reply_text_def Let_def
      split: option.splits)

lemma job_inv_confirm: "job_inv s \<Longrightarrow> job_inv (snd (confirm u s))"
proof -
  assume inv: "job_inv s"
  consider (no) "check_user u \<noteq> Inr True \<or> lower (msg_text u) \<noteq> ''yes''"
    | (none) "check_user u = Inr True" "lower (msg_text u) = ''yes''" "message_time s = None"
    | (some) t where "check_user u = Inr True" "lower (msg_text u) = ''yes''"
        "message_time s = Some t"
    by (cases "message_time s") auto
  then show ?thesis
  proof cases
    case no
    with inv show ?thesis by (auto simp: confirm_def split: sum.splits)
  next
    case none
    with inv have "scheduled_job s = None" by (auto simp: job_inv_def)
    with none inv show ?thesis by (simp add: confirm_def run_daily_def)
  next
    case some
    from confirm_yes [OF inv some] some(3) show ?thesis by (simp add: job_inv_def)
  qed
qed

lemma job_inv_stop: "job_inv s \<Longrightarrow> job_inv (snd (stop_scheduled_message u s))"
  by (auto simp: stop_scheduled_message_def job_inv_def schedule_removal_def reply_text_def
      split: option.splits sum.splits)

lemma reachable_job_inv: "reachable s \<Longrightarrow> job_inv s"
proof (induction rule: reachable.induct)
  case init
  show ?case by (simp add: job_inv_def initial_def)
next
  case (create s u)
  then show ?case by (simp add: create_scheduled_message_def split: sum.splits)
next
  case (message s u)
  then show ?case by (simp add: job_inv_set_message)
next
  case (time s u)
  then show ?case by (simp add: job_inv_set_time)
next
  case (confirm s u)
  then show ?case by (simp add: job_inv_confirm)
next
  case (cancel s u)
  then show ?case by (simp add: cancel_def split: sum.splits)
next
  case (stop s u)
  then show ?case by (simp add: job_inv_stop)
next
  case (trigger s u)
  then show ?case by (simp add: trigger_job_def split: sum.splits)
next
  case (fire s j)
  then show ?case by simp
qed

lemma set_time_valid:
  assumes "check_user u = Inr True" "parse_time (msg_text u) = Inr (h, m, t)"
  shows "set_time u s = (Returned (Some CONFIRM),
     s\<lparr>message_time := Some t,
       sent := sent s @ [(chat_id u,
          preview_text h m (parse_custom_message (message_template s) s))]\<rparr>)"
proof -
  have "parse_custom_message x (s\<lparr>message_time := Some t\<rparr>) = parse_custom_message x s" for x
    by (simp add: parse_custom_message_def)
  with assms show ?thesis by (simp add: set_time_def reply_text_def Let_def)
qed

lemma set_up_more:
  "message_time (set_up c) = Some \<lparr>hour = 9, minute = 0\<rparr>"
  "next_job_id (set_up c) = 1"
  by (simp_all add: set_up_def handler_defs reply_text_def initial_def seed_counter_def
    parse_time_def time_def run_daily_def text_defs Let_def)

lemma reachable_set_up: "reachable (set_up c)"
  unfolding set_up_def by (intro reachable.intros)

text \<open>
  C5: in every state the bot can reach the queue holds at most one job.  A confirmation
  with "yes" (any letter case) by the allowed user, once a time is set, removes the job
  there was and registers one new job, with the time set last and the chat of that
  confirmation; so after two confirmations in a row, or with a new time entered in
  between, the queue holds the second job alone.
\<close>

theorem at_most_one_job:
  assumes "reachable s"
  shows "length (job_queue s) \<le> 1
   \<and> (\<forall>u t. check_user u = Inr True \<and> lower (msg_text u) = ''yes'' \<and> message_time s = Some t \<longrightarrow>
        fst (confirm u s) = Returned (Some END)
        \<and> job_queue (snd (confirm u s))
            = [\<lparr>job_id = next_job_id s, job_time = t, job_chat_id = chat_id u\<rparr>]
        \<and> scheduled_job (snd (confirm u s))
            = Some \<lparr>job_id = next_job_id s, job_time = t, job_chat_id = chat_id u\<rparr>
        \<and> (\<forall>j. scheduled_job s = Some j \<longrightarrow> j \<notin> set (job_queue (snd (confirm u s)))))
   \<and> (\<forall>u1 u2 t. check_user u1 = Inr True \<and> lower (msg_text u1) = ''yes'' \<and> message_time s = Some t
        \<and> check_user u2 = Inr True \<and> lower (msg_text u2) = ''yes'' \<longrightarrow>
        job_queue (snd (confirm u2 (snd (confirm u1 s))))
          = [\<lparr>job_id = Suc (next_job_id s), job_time = t, job_chat_id = chat_id u2\<rparr>])
   \<and> (\<forall>u1 u u2 t h m t'. check_user u1 = Inr True \<and> lower (msg_text u1) = ''yes'' \<and> message_time s = Some t
        \<and> check_user u = Inr True \<and> parse_time (msg_text u) = Inr (h, m, t')
        \<and> check_user u2 = Inr True \<and> lower (msg_text u2) = ''yes'' \<longrightarrow>
        job_queue (snd (confirm u2 (snd (set_time u (snd (confirm u1 s))))))
          = [\<lparr>job_id = Suc (next_job_id s), job_time = t', job_chat_id = chat_id u2\<rparr>])"
proof -
  from assms have inv: "job_inv s" by (rule reachable_job_inv)
  have one: "length (job_queue s) \<le> 1"
    using inv by (auto simp: job_inv_def split: option.splits)
  have first: "fst (confirm u s) = Returned (Some END)
        \<and> job_queue (snd (confirm u s))
            = [\<lparr>job_id = next_job_id s, job_time = t, job_chat_id = chat_id u\<rparr>]
        \<and> scheduled_job (snd (confirm u s))
            = Some \<lparr>job_id = next_job_id s, job_time = t, job_chat_id = chat_id u\<rparr>
        \<and> (\<forall>j. scheduled_job s = Some j \<longrightarrow> j \<notin> set (job_queue (snd (confirm u s))))"
    if "check_user u = Inr True" "lower (msg_text u) = ''yes''" "message_time s = Some t" for u t
    using confirm_yes [OF inv that] inv by (auto simp: job_inv_def)
  have twice: "job_queue (snd (confirm u2 (snd (confirm u1 s))))
          = [\<lparr>job_id = Suc (next_job_id s), job_time = t, job_chat_id = chat_id u2\<rparr>]"
    if "check_user u1 = Inr True" "lower (msg_text u1) = ''yes''" "message_time s = Some t"
       "check_user u2 = Inr True" "lower (msg_text u2) = ''yes''" for u1 u2 t
  proof -
    let ?s1 = "snd (confirm u1 s)"
    have r1: "reachable ?s1" using assms by (rule reachable.confirm)
    have "message_time ?s1 = Some t" "next_job_id ?s1 = Suc (next_job_id s)"
      using confirm_yes [OF inv that(1,2,3)] that(3) by simp_all
    with confirm_yes [OF reachable_job_inv [OF r1] that(4,5), of t] show ?thesis by simp
  qed
  have retimed: "job_queue (snd (confirm u2 (snd (set_time u (snd (confirm u1 s))))))
          = [\<lparr>job_id = Suc (next_job_id s), job_time = t', job_chat_id = chat_id u2\<rparr>]"
    if "check_user u1 = Inr True" "lower (msg_text u1) = ''yes''" "message_time s = Some t"
       "check_user u = Inr True" "parse_time (msg_text u) = Inr (h, m, t')"
       "check_user u2 = Inr True" "lower (msg_text u2) = ''yes''" for u1 u u2 t h m t'
  proof -
    let ?s1 = "snd (confirm u1 s)"
    let ?s2 = "snd (set_time u ?s1)"
    have r2: "reachable ?s2" using assms by (intro reachable.time reachable.confirm)
    have "next_job_id ?s1 = Suc (next_job_id s)"
      using confirm_yes [OF inv that(1,2,3)] by simp
    then have "message_time ?s2 = Some t'" "next_job_id ?s2 = Suc (next_job_id s)"
      using set_time_valid [OF that(4,5), of ?s1] by simp_all
    with confirm_yes [OF reachable_job_inv [OF r2] that(6,7), of t'] show ?thesis by simp
  qed
  from one first twice retimed show ?thesis by blast
qed

theorem at_most_one_job_witness:
  "reachable (set_up 42)
   \<and> check_user (owner 7 ''YES'') = Inr True \<and> lower (msg_text (owner 7 ''YES'')) = ''yes''
   \<and> job_queue (set_up 42) = [\<lparr>job_id = 0, job_time = \<lparr>hour = 9, minute = 0\<rparr>, job_chat_id = 42\<rparr>]
   \<and> job_queue (snd (confirm (owner 7 ''YES'') (set_up 42)))
       = [\<lparr>job_id = 1, job_time = \<lparr>hour = 9, minute = 0\<rparr>, job_chat_id = 7\<rparr>]"
proof -
  have l: "lower (msg_text (owner 7 ''YES'')) = ''yes''" by (simp add: text_defs)
  have c: "check_user (owner 7 ''YES'') = Inr True" by simp
  from at_most_one_job [OF reachable_set_up, of 42] l c set_up_more [of 42]
  have "job_queue (snd (confirm (owner 7 ''YES'') (set_up 42)))
       = [\<lparr>job_id = next_job_id (set_up 42), job_time = \<lparr>hour = 9, minute = 0\<rparr>,
            job_chat_id = chat_id (owner 7 ''YES'')\<rparr>]"
    by blast
  with l c reachable_set_up [of 42] show ?thesis by (simp add: set_up_fields set_up_more)
qed

subsection \<open>Entering the time\<close>

lemma py_int_error: "py_int s = Inl e \<Longrightarrow> e = ValueError"
  by (simp add: py_int_def split: list.splits option.splits if_splits)

lemma time_cases:
  "time h m =
     (if h < - 2147483648 \<or> 2147483647 < h \<or> m < - 2147483648 \<or> 2147483647 < m
      then Inl OverflowError
      else if 0 \<le> h \<and> h \<le> 23 \<and> 0 \<le> m \<and> m \<le> 59 then Inr \<lparr>hour = h, minute = m\<rparr>
      else Inl ValueError)"
  by (simp add: time_def)

lemma parse_time_Inr_iff:
  "parse_time txt = Inr (h, m, t) \<longleftrightarrow>
     (\<exists>a b. split_colon txt = [a, b] \<and> py_int a = Inr h \<and> py_int b = Inr m
        \<and> 0 \<le> h \<and> h \<le> 23 \<and> 0 \<le> m \<and> m \<le> 59 \<and> t = \<lparr>hour = h, minute = m\<rparr>)"
  by (auto simp: parse_time_def time_cases split: list.splits sum.splits if_splits)

lemma parse_time_errors:
  "parse_time txt = Inl e \<Longrightarrow> e = ValueError \<or> e = OverflowError"
  by (auto simp: parse_time_def time_cases dest: py_int_error
      split: list.splits sum.splits if_splits)

lemma parse_time_overflow_iff:
  "parse_time txt = Inl OverflowError \<longleftrightarrow>
     (\<exists>a b h m. split_colon txt = [a, b] \<and> py_int a = Inr h \<and> py_int b = Inr m
        \<and> (h < - 2147483648 \<or> 2147483647 < h \<or> m < - 2147483648 \<or> 2147483647 < m))"
proof
  assume "parse_time txt = Inl OverflowError"
  then show "\<exists>a b h m. split_colon txt = [a, b] \<and> py_int a = Inr h \<and> py_int b = Inr m
        \<and> (h < - 2147483648 \<or> 2147483647 < h \<or> m < - 2147483648 \<or> 2147483647 < m)"
    by (auto simp: parse_time_def time_cases dest: py_int_error
        split: list.splits sum.splits if_splits)
next
  assume "\<exists>a b h m. split_colon txt = [a, b] \<and> py_int a = Inr h \<and> py_int b = Inr m
        \<and> (h < - 2147483648 \<or> 2147483647 < h \<or> m < - 2147483648 \<or> 2147483647 < m)"
  then obtain a b h m where "split_colon txt = [a, b]" "py_int a = Inr h" "py_int b = Inr m"
    "h < - 2147483648 \<or> 2147483647 < h \<or> m < - 2147483648 \<or> 2147483647 < m"
    by blast
  then show "parse_time txt = Inl OverflowError"
    by (simp add: parse_time_def time_cases)
qed

lemma set_time_invalid:
  assumes "check_user u = Inr True" "parse_time (msg_text u) = Inl ValueError"
  shows "set_time u s = (Returned (Some SET_TIME),
     s\<lparr>sent := sent s @ [(chat_id u, ''Invalid time format. Please use HH:MM (24-hour format).'')]\<rparr>)"
  using assms by (simp add: set_time_def reply_text_def)

lemma set_time_overflow:
  assumes "check_user u = Inr True" "parse_time (msg_text u) = Inl OverflowError"
  shows "set_time u s = (Raised OverflowError, s)"
  using assms by (simp add: set_time_def)

lemma set_time_examples:
  "fst (set_time (owner c ''14:30'') s) = Returned (Some CONFIRM)"
  "message_time (snd (set_time (owner c ''14:30'') s)) = Some \<lparr>hour = 14, minute = 30\<rparr>"
  "set_time (owner c ''99:99'') s = (Returned (Some SET_TIME),
     s\<lparr>sent := sent s @ [(c, ''Invalid time format. Please use HH:MM (24-hour format).'')]\<rparr>)"
  by (simp_all add: set_time_def parse_time_def time_def reply_text_def text_defs Let_def)

text \<open>
  C6: in set\_time, a text that is a valid time is recorded and previewed and leads to
  CONFIRM (set\_time\_valid, parse\_time\_Inr\_iff), and a text that raises ValueError is
  answered with the prompt and leads back to SET\_TIME (set\_time\_invalid).  The claim
  that every other text is answered so fails: for a field beyond the range of a C int,
  datetime.time raises OverflowError, which the handler does not catch; no reply is sent.
\<close>

theorem set_time_overflow_escapes:
  "set_time (owner c ''2147483648:00'') s = (Raised OverflowError, s)"
  by (simp add: set_time_def parse_time_def time_def text_defs)

end
